theory Spec2Isabelle
  imports Main "HOL-Library.Sublist"
begin

section \<open>Strings\<close>

text \<open>
  A Python \<open>str\<close> is a sequence of Unicode code points, and \<open>len\<close>, slicing, \<open>in\<close> and
  \<open>replace\<close> all count code points. A string is therefore a list of code points
  (natural numbers); \<open>asc\<close> embeds an ASCII literal.
\<close>

type_synonym ustring = "nat list"

definition asc :: "string \<Rightarrow> ustring" where
  "asc s = map of_char s"

text \<open>\<open>sub in s\<close> on strings: \<open>sub\<close> occurs in \<open>s\<close> as a contiguous substring.\<close>

fun py_in :: "ustring \<Rightarrow> ustring \<Rightarrow> bool" where
  "py_in sub [] = (sub = [])"
| "py_in sub (c # cs) = (prefix sub (c # cs) \<or> py_in sub cs)"

text \<open>\<open>sep.join(xs)\<close>.\<close>

fun py_join :: "ustring \<Rightarrow> ustring list \<Rightarrow> ustring" where
  "py_join sep [] = []"
| "py_join sep [x] = x"
| "py_join sep (x # y # ys) = x @ sep @ py_join sep (y # ys)"

text \<open>
  \<open>str.lower\<close> is a builtin whose Unicode case table is not part of the repository. The
  functions below take it as the parameter \<open>lower\<close>, so that what is proved of them holds
  for the real table. \<open>ascii_lower\<close> is the instance used to run the model on a concrete
  input: it lowers the letters A to Z and leaves every other code point alone, which is
  what \<open>str.lower\<close> does on ASCII text and on the CJK characters of the keyword tables.
\<close>

definition ascii_lower :: "ustring \<Rightarrow> ustring" where
  "ascii_lower s = map (\<lambda>c. if 65 \<le> c \<and> c \<le> 90 then c + 32 else c) s"

section \<open>The link verifier\<close>

text \<open>
  \<open>verify_link\<close> probes a URL with \<open>httpx.head\<close> and, unless that settles it, with
  \<open>httpx.get\<close>. The network is a parameter: each of the two requests either raises or
  returns a response, of which only \<open>status_code\<close> is read (redirects are followed by
  the client, so this is the status of the last response). An exception of a request
  carries the text that \<open>str\<close> gives for it.
\<close>

datatype request_error =
  Timeout ustring | DnsFailure ustring | ConnectionFailed ustring | MalformedUrl ustring
  | OtherException ustring

fun error_text :: "request_error \<Rightarrow> ustring" where
  "error_text (Timeout s) = s"
| "error_text (DnsFailure s) = s"
| "error_text (ConnectionFailed s) = s"
| "error_text (MalformedUrl s) = s"
| "error_text (OtherException s) = s"

type_synonym http_request = "ustring \<Rightarrow> request_error + int"

text \<open>The body of the \<open>try\<close> block: \<open>Inl\<close> is an exception leaving the block.\<close>

definition verify_link_try :: "http_request \<Rightarrow> http_request \<Rightarrow> ustring \<Rightarrow> request_error + bool" where
  "verify_link_try http_head http_get url =
    (case http_head url of
       Inl e \<Rightarrow> Inl e
     | Inr status_code \<Rightarrow>
         if status_code = 200 then Inr True
         else if status_code = 404 then Inr False
         else (case http_get url of
                 Inl e \<Rightarrow> Inl e
               | Inr status_code \<Rightarrow> Inr (status_code = 200)))"

text \<open>
  \<open>print(s)\<close> writes \<open>s\<close> to the standard output and raises \<open>UnicodeEncodeError\<close> when
  the encoding of the standard output has no code for a character of \<open>s\<close>. The encoding
  is the parameter \<open>encodable\<close>, which tells the code points it can encode. This module
  does not set the encoding of the standard output, as other modules of the repository
  do on import.
\<close>

datatype py_exception = UnicodeEncodeError

definition py_print :: "(nat \<Rightarrow> bool) \<Rightarrow> ustring \<Rightarrow> py_exception + unit" where
  "py_print encodable s = (if list_all encodable s then Inr () else Inl UnicodeEncodeError)"

text \<open>
  The message of the handler: two spaces, the warning sign U+26A0 U+FE0F,
  \<open> Link Verification Error (\<close>, the URL, \<open>): \<close> and the text of the exception.
\<close>

definition error_message :: "ustring \<Rightarrow> request_error \<Rightarrow> ustring" where
  "error_message url e =
    asc ''  '' @ [0x26A0, 0xFE0F] @ asc '' Link Verification Error ('' @ url @ asc ''): ''
      @ error_text e"

text \<open>
  \<open>except Exception as e\<close> catches every exception of the block, prints the message and
  returns \<open>False\<close>; an exception raised by that \<open>print\<close> leaves the function.
\<close>

definition verify_link ::
  "(nat \<Rightarrow> bool) \<Rightarrow> http_request \<Rightarrow> http_request \<Rightarrow> ustring \<Rightarrow> py_exception + bool" where
  "verify_link encodable http_head http_get url =
    (case verify_link_try http_head http_get url of
       Inl e \<Rightarrow>
         (case py_print encodable (error_message url e) of
            Inl raised \<Rightarrow> Inl raised
          | Inr printed \<Rightarrow> Inr False)
     | Inr is_valid \<Rightarrow> Inr is_valid)"

section \<open>The anti-hallucination layer: \<open>validate_grok_report\<close>\<close>

subsection \<open>Link extraction\<close>

text \<open>
  \<open>re.findall(r'\[([^\]]+)\]\((https?://[^\)]+)\)', markdown_content)\<close>.
  \<open>match_link s\<close> matches the pattern at the start of \<open>s\<close> and returns the two groups
  and the text after the match. Both character classes are greedy; the run of the first
  ends at the first \<open>]\<close> and that of the second at the first \<open>)\<close>, and a shorter run
  can never be followed by the required bracket, so backtracking adds no match.
  \<open>match_scheme\<close> is \<open>https?://\<close>.
\<close>

definition match_scheme :: "ustring \<Rightarrow> (ustring \<times> ustring) option" where
  "match_scheme s =
    (if prefix (asc ''https://'') s then Some (asc ''https://'', drop 8 s)
     else if prefix (asc ''http://'') s then Some (asc ''http://'', drop 7 s)
     else None)"

definition match_link :: "ustring \<Rightarrow> ((ustring \<times> ustring) \<times> ustring) option" where
  "match_link s =
    (case s of
       [] \<Rightarrow> None
     | c # r \<Rightarrow>
         if c \<noteq> of_char CHR ''['' then None
         else
           let title = takeWhile (\<lambda>x. x \<noteq> of_char CHR '']'') r;
               r1 = dropWhile (\<lambda>x. x \<noteq> of_char CHR '']'') r
           in if title = [] \<or> \<not> prefix (asc '']('') r1 then None
              else
                (case match_scheme (drop 2 r1) of
                   None \<Rightarrow> None
                 | Some (scheme, r2) \<Rightarrow>
                     let rest_of_url = takeWhile (\<lambda>x. x \<noteq> of_char CHR '')'') r2;
                         r3 = dropWhile (\<lambda>x. x \<noteq> of_char CHR '')'') r2
                     in if rest_of_url = [] \<or> r3 = [] then None
                        else Some ((title, scheme @ rest_of_url), tl r3)))"

lemma match_scheme_length: "match_scheme s = Some (scheme, r) \<Longrightarrow> length r \<le> length s"
  by (auto simp: match_scheme_def split: if_splits)

lemma match_link_length: "match_link s = Some (m, rest) \<Longrightarrow> length rest < length s"
proof -
  assume a: "match_link s = Some (m, rest)"
  then obtain c r where s: "s = c # r"
    by (cases s) (auto simp: match_link_def)
  let ?r1 = "dropWhile (\<lambda>x. x \<noteq> of_char CHR '']'') r"
  from a s obtain scheme r2 where sch: "match_scheme (drop 2 ?r1) = Some (scheme, r2)"
    and rest: "rest = tl (dropWhile (\<lambda>x. x \<noteq> of_char CHR '')'') r2)"
    by (auto simp: match_link_def Let_def split: if_splits option.splits)
  have "length rest \<le> length (dropWhile (\<lambda>x. x \<noteq> of_char CHR '')'') r2)"
    unfolding rest by simp
  also have "\<dots> \<le> length r2"
    by (rule length_dropWhile_le)
  also have "\<dots> \<le> length (drop 2 ?r1)"
    using sch by (rule match_scheme_length)
  also have "\<dots> \<le> length ?r1"
    by simp
  also have "\<dots> \<le> length r"
    by (rule length_dropWhile_le)
  finally show ?thesis
    using s by simp
qed

text \<open>Matches are searched from left to right; the search resumes after each match.\<close>

function findall_links :: "ustring \<Rightarrow> (ustring \<times> ustring) list" where
  "findall_links [] = []"
| "findall_links (c # cs) =
    (case match_link (c # cs) of
       Some (m, rest) \<Rightarrow> m # findall_links rest
     | None \<Rightarrow> findall_links cs)"
  by pat_completeness auto
termination
  by (relation "measure length") (auto dest: match_link_length)

subsection \<open>Rewriting\<close>

text \<open>
  \<open>s.replace(old, new)\<close>: every occurrence of \<open>old\<close>, found from left to right without
  overlap, becomes \<open>new\<close>. With an empty \<open>old\<close>, Python puts \<open>new\<close> before every character
  and at the end.
\<close>

function py_replace :: "ustring \<Rightarrow> ustring \<Rightarrow> ustring \<Rightarrow> ustring" where
  "py_replace [] old new = (if old = [] then new else [])"
| "py_replace (c # cs) old new =
    (if old = [] then new @ concat (map (\<lambda>x. x # new) (c # cs))
     else if prefix old (c # cs) then new @ py_replace (drop (length old) (c # cs)) old new
     else c # py_replace cs old new)"
  by pat_completeness auto
termination
  by (relation "measure (\<lambda>(s, old, new). length s)") auto

definition skip_domains :: "ustring list" where
  "skip_domains = [asc ''twitter.com'', asc ''x.com'', asc ''weibo.com'', asc ''xiaohongshu.com'']"

text \<open>\<open>any(domain in url for domain in skip_domains)\<close>.\<close>

definition skip_url :: "ustring \<Rightarrow> bool" where
  "skip_url url = list_ex (\<lambda>domain. py_in domain url) skip_domains"

text \<open>\<open>f"[{title}]({url})"\<close>.\<close>

definition old_link :: "ustring \<Rightarrow> ustring \<Rightarrow> ustring" where
  "old_link title url = asc ''['' @ title @ asc '']('' @ url @ asc '')''"

text \<open>
  The warning appended to a link: a space, two asterisks, an opening parenthesis, the
  warning sign U+26A0 U+FE0F, a space, six Chinese characters (U+94FE U+63A5 U+9A8C U+8BC1
  U+5931 U+8D25, "link verification failed"), then \<open>/404)**\<close>.
\<close>

definition warning :: ustring where
  "warning = asc '' **('' @ [0x26A0, 0xFE0F] @ asc '' ''
     @ [0x94FE, 0x63A5, 0x9A8C, 0x8BC1, 0x5931, 0x8D25] @ asc ''/404)**''"

definition new_link :: "ustring \<Rightarrow> ustring \<Rightarrow> ustring" where
  "new_link title url = asc ''['' @ title @ asc '']('' @ url @ asc '')'' @ warning"

subsection \<open>The loop\<close>

text \<open>\<open>str(n)\<close> for a natural number: its decimal digits.\<close>

function py_str :: "nat \<Rightarrow> ustring" where
  "py_str n = (if n < 10 then [48 + n] else py_str (n div 10) @ [48 + n mod 10])"
  by pat_completeness auto
termination
  by (relation "measure id") auto

declare py_str.simps [simp del]

text \<open>
  The three messages of the function:
  \<open>f"  [*] Validating {len(matches)} links from Grok output..."\<close> before the loop, and in
  the loop \<open>f"    X INVALID: {url}"\<close>, where \<open>X\<close> is the cross mark U+274C, and
  \<open>f"    V Valid: {url[:50]}..."\<close>, where \<open>V\<close> is the check mark U+2705.
\<close>

definition validating_message :: "nat \<Rightarrow> ustring" where
  "validating_message n = asc ''  [*] Validating '' @ py_str n @ asc '' links from Grok output...''"

definition invalid_message :: "ustring \<Rightarrow> ustring" where
  "invalid_message url = asc ''    '' @ [0x274C] @ asc '' INVALID: '' @ url"

definition valid_message :: "ustring \<Rightarrow> ustring" where
  "valid_message url = asc ''    '' @ [0x2705] @ asc '' Valid: '' @ take 50 url @ asc ''...''"

text \<open>
  The checker is the parameter \<open>verify\<close>: called on a URL, it returns a boolean or
  raises, as \<open>verify_link\<close> does. The standard output is the parameter \<open>encodable\<close>:
  this module does not set its encoding either, though some of the modules it imports
  do.
\<close>

type_synonym checker = "ustring \<Rightarrow> py_exception + bool"

text \<open>
  The loop \<open>for title, url in matches\<close>, with the working text \<open>validated_content\<close> and
  the list \<open>calls\<close> of the URLs passed to the checker so far, which records the calls.
  Nothing in the function catches an exception, so an exception of the checker or of a
  \<open>print\<close> ends the loop and leaves the function. For a link found not live the code
  rewrites the working text and then prints; when that \<open>print\<close> raises, the rewritten
  text is lost with the rest. The result is the final working text, or the exception,
  together with the calls made.
\<close>

fun validate_loop ::
  "(nat \<Rightarrow> bool) \<Rightarrow> checker \<Rightarrow> (ustring \<times> ustring) list \<Rightarrow> ustring \<Rightarrow> ustring list
     \<Rightarrow> (py_exception + ustring) \<times> ustring list" where
  "validate_loop encodable verify [] validated_content calls = (Inr validated_content, calls)"
| "validate_loop encodable verify ((title, url) # matches) validated_content calls =
    (if skip_url url then validate_loop encodable verify matches validated_content calls
     else
       (case verify url of
          Inl raised \<Rightarrow> (Inl raised, calls @ [url])
        | Inr is_valid \<Rightarrow>
            if \<not> is_valid then
              (case py_print encodable (invalid_message url) of
                 Inl raised \<Rightarrow> (Inl raised, calls @ [url])
               | Inr printed \<Rightarrow>
                   validate_loop encodable verify matches
                     (py_replace validated_content (old_link title url) (new_link title url))
                     (calls @ [url]))
            else
              (case py_print encodable (valid_message url) of
                 Inl raised \<Rightarrow> (Inl raised, calls @ [url])
               | Inr printed \<Rightarrow>
                   validate_loop encodable verify matches validated_content (calls @ [url]))))"

text \<open>
  \<open>verifier\<close> is \<open>None\<close> when the import of \<open>utils.verifier\<close> failed
  (\<open>VERIFIER_AVAILABLE\<close> is false) and \<open>Some verify_link\<close> otherwise. The result is the
  returned text, or the exception that left the function, and the calls made to the
  checker.
\<close>

definition validate_grok_report ::
  "(nat \<Rightarrow> bool) \<Rightarrow> checker option \<Rightarrow> ustring \<Rightarrow> (py_exception + ustring) \<times> ustring list" where
  "validate_grok_report encodable verifier markdown_content =
    (case verifier of
       None \<Rightarrow> (Inr markdown_content, [])
     | Some verify \<Rightarrow>
         let matches = findall_links markdown_content
         in if matches = [] then (Inr markdown_content, [])
            else
              (case py_print encodable (validating_message (length matches)) of
                 Inl raised \<Rightarrow> (Inl raised, [])
               | Inr printed \<Rightarrow> validate_loop encodable verify matches markdown_content []))"

subsection \<open>Notions used to state the properties\<close>


text \<open>A checker that returns \<open>False\<close> for every URL.\<close>

definition no_link_live :: checker where
  "no_link_live url = Inr False"






text \<open>A standard output that encodes ASCII only.\<close>

definition ascii_only :: "nat \<Rightarrow> bool" where
  "ascii_only c = (c < 128)"

text \<open>A standard output in UTF-8: it encodes every code point but the surrogates.\<close>

definition utf8_encodable :: "nat \<Rightarrow> bool" where
  "utf8_encodable c = (c < 0xD800 \<or> 0xDFFF < c)"

section \<open>The V2EX radar: lead scoring\<close>

subsection \<open>Keyword tables\<close>

text \<open>The class constants of \<open>V2EXRadar\<close>, code point by code point, in the source's order.\<close>

definition MONEY_KEYWORDS :: "ustring list" where
  "MONEY_KEYWORDS =
    [[0x5916, 0x5305], [0x517C, 0x804C], [0x6709, 0x507F], [0x9884, 0x7B97],
     [0x62A5, 0x4EF7], [0x62DB], [0x6025], [0x4ED8, 0x8D39]]"

definition PAIN_KEYWORDS :: "ustring list" where
  "PAIN_KEYWORDS =
    [[0x6C42, 0x52A9], [0x5E2E, 0x5FD9], [0x4E0D, 0x61C2], [0x6551, 0x547D],
     [0x600E, 0x4E48, 0x505A], [0x592A, 0x96BE], [0x5D29, 0x6E83], [0x65E0, 0x6CD5],
     [0x62A5, 0x9519]]"

definition DESPERATION_KEYWORDS :: "ustring list" where
  "DESPERATION_KEYWORDS =
    [[0x5728, 0x7EBF, 0x7B49], [0x6709, 0x507F], [0x6025], [0x6551, 0x547D],
     [0x7EA2, 0x5305], [0x5D29, 0x6E83], [0x6C42, 0x5927, 0x4F6C],
     [0x4ED8, 0x8D39, 0x89E3, 0x51B3]]"

definition TECH_KEYWORDS :: "ustring list" where
  "TECH_KEYWORDS =
    [asc ''FPGA'', asc ''Verilog'', asc ''Python'', [0x722C, 0x866B], [0x811A, 0x672C],
     asc ''Web3'', asc ''Solana'', asc ''Rust'', [0x56FE, 0x50CF], [0x89C6, 0x89C9],
     [0x8BC6, 0x522B], [0x62A0, 0x56FE], asc ''Automation'', asc ''Bot'']"

text \<open>
  The tag literals. Each starts with an emoji: U+1F4B0 before \<open>Money\<close>, U+1F691 before
  \<open>Pain\<close>, U+1F525 before \<open>Urgent\<close>, and U+1F6E0 U+FE0F before the comma-joined
  technology keywords.
\<close>

definition tag_money :: ustring where
  "tag_money = 0x1F4B0 # asc ''Money''"

definition tag_pain :: ustring where
  "tag_pain = 0x1F691 # asc ''Pain''"

definition tag_urgent :: ustring where
  "tag_urgent = 0x1F525 # asc ''Urgent''"

definition tag_tech :: "ustring list \<Rightarrow> ustring" where
  "tag_tech tech_matches = [0x1F6E0, 0xFE0F] @ py_join (asc '','') tech_matches"

subsection \<open>\<open>_analyze_content\<close>\<close>

text \<open>\<open>any(k in text for k in [k.lower() for k in keywords])\<close>.\<close>

definition any_keyword :: "(ustring \<Rightarrow> ustring) \<Rightarrow> ustring list \<Rightarrow> ustring \<Rightarrow> bool" where
  "any_keyword lower keywords text = list_ex (\<lambda>k. py_in k text) (map lower keywords)"

definition analyze_content ::
  "(ustring \<Rightarrow> ustring) \<Rightarrow> ustring \<Rightarrow> ustring \<Rightarrow> ustring list \<times> int" where
  "analyze_content lower title content =
    (let text = lower (title @ content);
         found_tags = [];
         score = 0;
         (found_tags, score) =
           (if any_keyword lower MONEY_KEYWORDS text
            then (found_tags @ [tag_money], score + 20) else (found_tags, score));
         (found_tags, score) =
           (if any_keyword lower PAIN_KEYWORDS text
            then (found_tags @ [tag_pain], score + 10) else (found_tags, score));
         (found_tags, score) =
           (if any_keyword lower DESPERATION_KEYWORDS text
            then (found_tags @ [tag_urgent], score + 100) else (found_tags, score));
         tech_matches = filter (\<lambda>t. py_in (lower t) text) TECH_KEYWORDS;
         (found_tags, score) =
           (if tech_matches \<noteq> []
            then (found_tags @ [tag_tech tech_matches], score + 30) else (found_tags, score))
     in if tag_money \<in> set found_tags \<or> tag_pain \<in> set found_tags
           \<or> tag_urgent \<in> set found_tags
        then (found_tags, if tech_matches \<noteq> [] then score + 50 else score)
        else ([], 0))"

subsection \<open>\<open>_clean_summary\<close>\<close>

text \<open>
  \<open>re.sub('<[^<]+?>', '', html_content)\<close>. A match starts at a \<open><\<close>, takes one or more
  characters other than \<open><\<close> (as few as possible) and ends at a \<open>>\<close>. The first character
  after the \<open><\<close> may itself be a \<open>>\<close>, so the match ends at the first \<open>>\<close> that is at least
  two places after the \<open><\<close>, provided no \<open><\<close> comes before it. \<open>tag_end s\<close> looks for that
  \<open>>\<close> in \<open>s\<close> and returns what follows it; \<open>match_tag s\<close> is given the text after the
  opening \<open><\<close>. Matches are taken leftmost first and do not overlap; text outside them
  is kept.
\<close>

fun tag_end :: "ustring \<Rightarrow> ustring option" where
  "tag_end [] = None"
| "tag_end (c # cs) =
    (if c = of_char CHR ''>'' then Some cs
     else if c = of_char CHR ''<'' then None
     else tag_end cs)"

fun match_tag :: "ustring \<Rightarrow> ustring option" where
  "match_tag [] = None"
| "match_tag (c # cs) = (if c = of_char CHR ''<'' then None else tag_end cs)"

lemma tag_end_length: "tag_end s = Some r \<Longrightarrow> length r < length s"
  by (induction s) (auto split: if_splits)

lemma match_tag_length: "match_tag s = Some r \<Longrightarrow> length r < length s"
  by (cases s) (auto split: if_splits dest: tag_end_length)

function strip_tags :: "ustring \<Rightarrow> ustring" where
  "strip_tags [] = []"
| "strip_tags (c # cs) =
    (if c = of_char CHR ''<'' then
       (case match_tag cs of
          Some rest \<Rightarrow> strip_tags rest
        | None \<Rightarrow> c # strip_tags cs)
     else c # strip_tags cs)"
  by pat_completeness auto
termination
  by (relation "measure length") (auto dest: match_tag_length)

text \<open>\<open>clean[:200] + "..." if len(clean) > 200 else clean\<close>.\<close>

definition clean_summary :: "ustring \<Rightarrow> ustring" where
  "clean_summary html_content =
    (let clean = strip_tags html_content
     in if length clean > 200 then take 200 clean @ asc ''...'' else clean)"

subsection \<open>\<open>fetch_leads\<close>\<close>

text \<open>
  What the loop sees of one \<open>item\<close> element of a feed: for each of the four children it
  looks up with \<open>find\<close>, whether the child is missing (\<open>find\<close> returns \<open>None\<close>) or present,
  and then the child's \<open>text\<close>, which may be \<open>None\<close>.
\<close>

datatype xml_child = Missing | Child "ustring option"

record xml_item =
  title_child :: xml_child
  link_child :: xml_child
  description_child :: xml_child
  pubDate_child :: xml_child

text \<open>
  \<open>item.find(...).text or ""\<close>. Reading \<open>text\<close> of a missing child raises
  \<open>AttributeError\<close>, here \<open>None\<close>.
\<close>

fun child_text :: "xml_child \<Rightarrow> ustring option" where
  "child_text Missing = None"
| "child_text (Child None) = Some []"
| "child_text (Child (Some s)) = Some s"

text \<open>
  The local variables of the loop body once the four texts are read, with the key of the
  feed in \<open>RSS_FEEDS\<close>.
\<close>

record rss_item =
  feed_category :: ustring
  item_title :: ustring
  link :: ustring
  description :: ustring
  pub_date_str :: ustring

definition read_item :: "ustring \<Rightarrow> xml_item \<Rightarrow> rss_item option" where
  "read_item category x =
    (case child_text (title_child x) of
       None \<Rightarrow> None
     | Some t \<Rightarrow>
    (case child_text (link_child x) of
       None \<Rightarrow> None
     | Some l \<Rightarrow>
    (case child_text (description_child x) of
       None \<Rightarrow> None
     | Some d \<Rightarrow>
    (case child_text (pubDate_child x) of
       None \<Rightarrow> None
     | Some p \<Rightarrow>
         Some \<lparr> feed_category = category, item_title = t, link = l, description = d,
                pub_date_str = p \<rparr>))))"

text \<open>
  The date test. \<open>strptime\<close> and the clock are the parameter \<open>age\<close>: for a date string
  that parses with the format of the feed, \<open>age\<close> gives \<open>(now - pub_date).days\<close>, and it
  gives \<open>None\<close> when \<open>strptime\<close> or the subtraction raises, which the inner \<open>try\<close>
  passes over. An item is skipped when its age is above \<open>days\<close>.
\<close>

definition too_old :: "(ustring \<Rightarrow> int option) \<Rightarrow> int \<Rightarrow> ustring \<Rightarrow> bool" where
  "too_old age days s = (case age s of None \<Rightarrow> False | Some d \<Rightarrow> d > days)"

record Lead =
  source :: ustring
  title :: ustring
  url :: ustring
  summary :: ustring
  posted_date :: ustring
  tags :: "ustring list"
  desperation_score :: int

text \<open>Analyse, and build a Lead when \<open>tags\<close> is not empty.\<close>

definition lead_of :: "(ustring \<Rightarrow> ustring) \<Rightarrow> rss_item \<Rightarrow> Lead option" where
  "lead_of lower item =
    (let (tags, score) = analyze_content lower (item_title item) (description item)
     in if tags \<noteq> [] then
          Some \<lparr> source = asc ''V2EX-'' @ feed_category item,
                 title = item_title item,
                 url = link item,
                 summary = clean_summary (description item),
                 posted_date = pub_date_str item,
                 tags = tags,
                 desperation_score = score \<rparr>
        else None)"

text \<open>
  The loop over the items of one feed, with the list \<open>all_leads\<close> built so far. A missing
  child raises inside the outer \<open>try\<close>: the rest of the feed is given up and the Leads
  appended so far stay. An item that is too old is skipped with \<open>continue\<close>.
\<close>

fun scan_feed ::
  "(ustring \<Rightarrow> ustring) \<Rightarrow> (ustring \<Rightarrow> int option) \<Rightarrow> int \<Rightarrow> ustring \<Rightarrow> xml_item list
     \<Rightarrow> Lead list \<Rightarrow> Lead list" where
  "scan_feed lower age days category [] all_leads = all_leads"
| "scan_feed lower age days category (x # xs) all_leads =
    (case read_item category x of
       None \<Rightarrow> all_leads
     | Some item \<Rightarrow>
         if too_old age days (pub_date_str item)
         then scan_feed lower age days category xs all_leads
         else
           (case lead_of lower item of
              Some lead \<Rightarrow> scan_feed lower age days category xs (all_leads @ [lead])
            | None \<Rightarrow> scan_feed lower age days category xs all_leads))"

text \<open>
  The loop over \<open>RSS_FEEDS\<close>. A feed is given by its key and by the items found in its
  XML, or by \<open>None\<close> when fetching or parsing it raised; such a feed is passed over.
  The messages of \<open>fetch_leads\<close> go to the standard output, which this module sets to
  UTF-8 when it is imported. They are made of literals, numbers, the keys of \<open>RSS_FEEDS\<close>
  and the text of a caught exception; printing them is not part of the model.
\<close>

type_synonym feed = "ustring \<times> xml_item list option"

fun scan_feeds ::
  "(ustring \<Rightarrow> ustring) \<Rightarrow> (ustring \<Rightarrow> int option) \<Rightarrow> int \<Rightarrow> feed list \<Rightarrow> Lead list
     \<Rightarrow> Lead list" where
  "scan_feeds lower age days [] all_leads = all_leads"
| "scan_feeds lower age days ((category, None) # feeds) all_leads =
     scan_feeds lower age days feeds all_leads"
| "scan_feeds lower age days ((category, Some xs) # feeds) all_leads =
     scan_feeds lower age days feeds (scan_feed lower age days category xs all_leads)"

text \<open>
  \<open>list.sort(key=..., reverse=True)\<close>: CPython reverses the list, runs its stable
  ascending sort and reverses the result, which is how it keeps equal keys in their
  original order under \<open>reverse=True\<close>.
\<close>

definition py_sort_reverse :: "('a \<Rightarrow> int) \<Rightarrow> 'a list \<Rightarrow> 'a list" where
  "py_sort_reverse key xs = rev (sort_key key (rev xs))"

definition fetch_leads ::
  "(ustring \<Rightarrow> ustring) \<Rightarrow> (ustring \<Rightarrow> int option) \<Rightarrow> int \<Rightarrow> feed list \<Rightarrow> Lead list" where
  "fetch_leads lower age days feeds =
     py_sort_reverse desperation_score (scan_feeds lower age days feeds [])"

subsection \<open>Notions used to state the properties of the scoring\<close>

text \<open>
  The items of a feed that reach the analysis: those before the first item with a
  missing child, less the ones that are too old. \<open>analysed_items\<close> are those of all
  feeds, in order.
\<close>

definition feed_items ::
  "(ustring \<Rightarrow> int option) \<Rightarrow> int \<Rightarrow> ustring \<Rightarrow> xml_item list \<Rightarrow> rss_item list" where
  "feed_items age days category xs =
     filter (\<lambda>item. \<not> too_old age days (pub_date_str item))
       (List.map_filter (read_item category)
          (takeWhile (\<lambda>x. read_item category x \<noteq> None) xs))"

definition analysed_items ::
  "(ustring \<Rightarrow> int option) \<Rightarrow> int \<Rightarrow> feed list \<Rightarrow> rss_item list" where
  "analysed_items age days feeds =
     concat (map (\<lambda>(category, fetched).
                    case fetched of None \<Rightarrow> [] | Some xs \<Rightarrow> feed_items age days category xs)
               feeds)"

text \<open>An \<open>item\<close> element with its four children, each with a text.\<close>

definition full_item :: "ustring \<Rightarrow> ustring \<Rightarrow> ustring \<Rightarrow> ustring \<Rightarrow> xml_item" where
  "full_item t l d p =
     \<lparr> title_child = Child (Some t), link_child = Child (Some l),
       description_child = Child (Some d), pubDate_child = Child (Some p) \<rparr>"


section \<open>Properties of the lead scoring\<close>

subsection \<open>Auxiliary facts\<close>

lemmas eval_simps = asc_def ascii_lower_def MONEY_KEYWORDS_def PAIN_KEYWORDS_def
  DESPERATION_KEYWORDS_def TECH_KEYWORDS_def tag_money_def tag_pain_def tag_urgent_def tag_tech_def
  any_keyword_def



lemma tag_tech_neq:
  "tag_tech ms \<noteq> tag_money" "tag_tech ms \<noteq> tag_pain" "tag_tech ms \<noteq> tag_urgent"
  by (simp_all add: tag_tech_def tag_money_def tag_pain_def tag_urgent_def)

lemma tags_distinct:
  "tag_money \<noteq> tag_pain" "tag_money \<noteq> tag_urgent" "tag_pain \<noteq> tag_urgent"
  by (simp_all add: tag_money_def tag_pain_def tag_urgent_def)

text \<open>The tags and the score, written out by which categories matched.\<close>

lemma analyze_content_eq:
  "analyze_content lower ttl content =
    (let text = lower (ttl @ content);
         m = any_keyword lower MONEY_KEYWORDS text;
         p = any_keyword lower PAIN_KEYWORDS text;
         u = any_keyword lower DESPERATION_KEYWORDS text;
         tech = filter (\<lambda>t. py_in (lower t) text) TECH_KEYWORDS
     in if m \<or> p \<or> u
        then ((if m then [tag_money] else []) @ (if p then [tag_pain] else [])
                @ (if u then [tag_urgent] else []) @ (if tech \<noteq> [] then [tag_tech tech] else []),
              (if m then 20 else 0) + (if p then 10 else 0) + (if u then 100 else 0)
                + (if tech \<noteq> [] then 80 else 0))
        else ([], 0))"
  unfolding analyze_content_def Let_def
  by (simp add: tag_tech_neq tag_tech_neq [symmetric] tags_distinct tags_distinct [symmetric])

lemma analyze_content_empty_iff:
  "(fst (analyze_content lower ttl content) = []) =
     (\<not> (any_keyword lower MONEY_KEYWORDS (lower (ttl @ content))
         \<or> any_keyword lower PAIN_KEYWORDS (lower (ttl @ content))
         \<or> any_keyword lower DESPERATION_KEYWORDS (lower (ttl @ content))))"
  by (simp add: analyze_content_eq Let_def)

lemma analyze_content_score_pos:
  "fst (analyze_content lower ttl content) \<noteq> [] \<Longrightarrow>
     10 \<le> snd (analyze_content lower ttl content)"
  by (simp add: analyze_content_eq Let_def split: if_splits)


lemma tags_fixed_order:
  "subseq (fst (analyze_content lower ttl content))
     [tag_money, tag_pain, tag_urgent,
      tag_tech (filter (\<lambda>t. py_in (lower t) (lower (ttl @ content))) TECH_KEYWORDS)]"
  by (simp add: analyze_content_eq Let_def)

lemma lead_of_Some:
  "lead_of lower item = Some l \<Longrightarrow>
     tags l = fst (analyze_content lower (item_title item) (description item))
   \<and> desperation_score l = snd (analyze_content lower (item_title item) (description item))
   \<and> summary l = clean_summary (description item)
   \<and> tags l \<noteq> []"
  by (auto simp: lead_of_def split: prod.splits if_splits)

lemma lead_of_None:
  "(lead_of lower item = None) =
     (fst (analyze_content lower (item_title item) (description item)) = [])"
  by (auto simp: lead_of_def split: prod.splits if_splits)

text \<open>The sort: descending, stable, and a permutation.\<close>

lemma py_sort_reverse_sorted:
  "sorted_wrt (\<lambda>a b. key a \<ge> key b) (py_sort_reverse key xs)"
proof -
  have "sorted (map key (sort_key key (rev xs)))" by simp
  then have "sorted_wrt (\<lambda>a b. key a \<le> key b) (sort_key key (rev xs))"
    by (simp add: sorted_wrt_map)
  then show ?thesis
    by (simp add: py_sort_reverse_def sorted_wrt_rev)
qed

lemma py_sort_reverse_stable:
  "filter (\<lambda>x. key x = k) (py_sort_reverse key xs) = filter (\<lambda>x. key x = k) xs"
proof -
  have "filter (\<lambda>x. key x = k) (py_sort_reverse key xs)
        = rev (filter (\<lambda>x. key x = k) (sort_key key (rev xs)))"
    by (simp add: py_sort_reverse_def rev_filter)
  also have "\<dots> = rev (filter (\<lambda>x. key x = k) (rev xs))"
    by (simp only: sort_key_stable)
  also have "\<dots> = filter (\<lambda>x. key x = k) xs"
    by (simp add: rev_filter)
  finally show ?thesis .
qed

lemma set_py_sort_reverse: "set (py_sort_reverse key xs) = set xs"
  by (simp add: py_sort_reverse_def)

text \<open>The two loops append, in order, the Leads of the items that reach the analysis.\<close>

lemma scan_feed_eq:
  "scan_feed lower age days category xs all_leads =
     all_leads @ List.map_filter (lead_of lower) (feed_items age days category xs)"
proof (induction xs arbitrary: all_leads)
  case Nil
  show ?case by (simp add: feed_items_def)
next
  case (Cons x xs)
  show ?case
  proof (cases "read_item category x")
    case None
    then show ?thesis by (simp add: feed_items_def)
  next
    case (Some item)
    then have f: "feed_items age days category (x # xs) =
        (if too_old age days (pub_date_str item) then [] else [item])
          @ feed_items age days category xs"
      by (simp add: feed_items_def)
    show ?thesis
      using Some Cons.IH by (simp add: f split: option.splits)
  qed
qed

lemma scan_feeds_eq:
  "scan_feeds lower age days feeds all_leads =
     all_leads @ List.map_filter (lead_of lower) (analysed_items age days feeds)"
proof (induction feeds arbitrary: all_leads)
  case Nil
  show ?case by (simp add: analysed_items_def)
next
  case (Cons f feeds)
  obtain category fetched where f: "f = (category, fetched)" by (cases f)
  have m: "List.map_filter g (xs @ ys) = List.map_filter g xs @ List.map_filter g ys"
    for g :: "rss_item \<Rightarrow> Lead option" and xs ys
    by (simp add: List.map_filter_def)
  show ?case
  proof (cases fetched)
    case None
    then show ?thesis
      using Cons.IH by (simp add: f analysed_items_def)
  next
    case (Some xs)
    then show ?thesis
      using Cons.IH by (simp add: f analysed_items_def scan_feed_eq m)
  qed
qed

lemma fetch_leads_eq:
  "fetch_leads lower age days feeds =
     py_sort_reverse desperation_score
       (List.map_filter (lead_of lower) (analysed_items age days feeds))"
  by (simp add: fetch_leads_def scan_feeds_eq)

lemma set_map_filter_lead_of:
  "set (List.map_filter (lead_of lower) items) =
     {l. \<exists>item\<in>set items. lead_of lower item = Some l}"
  by (induction items) (auto split: option.splits)

lemma set_fetch_leads:
  "set (fetch_leads lower age days feeds) =
     {l. \<exists>item\<in>set (analysed_items age days feeds). lead_of lower item = Some l}"
  by (simp add: fetch_leads_eq set_py_sort_reverse set_map_filter_lead_of)

lemma filter_map_filter_lead_of:
  "filter (\<lambda>l. desperation_score l = k) (List.map_filter (lead_of lower) items) =
     List.map_filter (lead_of lower)
       (filter (\<lambda>item. snd (analyze_content lower (item_title item) (description item)) = k) items)"
  by (induction items) (auto split: option.splits dest: lead_of_Some)

text \<open>Tag stripping keeps a text without \<open><\<close> and only ever deletes characters.\<close>

lemma strip_tags_no_lt: "of_char CHR ''<'' \<notin> set s \<Longrightarrow> strip_tags s = s"
  by (induction s) auto

lemma tag_end_suffix: "tag_end s = Some r \<Longrightarrow> suffix r s"
  by (induction s) (auto split: if_splits simp: suffix_Cons)

lemma match_tag_suffix: "match_tag s = Some r \<Longrightarrow> suffix r s"
  by (cases s) (auto split: if_splits simp: suffix_Cons dest: tag_end_suffix)

lemma subseq_strip_tags: "subseq (strip_tags s) s"
proof (induction s rule: strip_tags.induct)
  case 1
  show ?case by simp
next
  case (2 c cs)
  show ?case
  proof (cases "c = of_char CHR ''<''")
    case False
    with 2 show ?thesis by simp
  next
    case True
    show ?thesis
    proof (cases "match_tag cs")
      case None
      with True 2 show ?thesis by simp
    next
      case (Some rest)
      with True 2 have "subseq (strip_tags rest) rest" by simp
      moreover have "subseq rest cs"
        using Some match_tag_suffix by (meson sublist_imp_subseq suffix_imp_sublist)
      ultimately have "subseq (strip_tags rest) (c # cs)"
        by (meson subseq_Cons' subseq_order.order_trans subseq_Cons2)
      with True Some show ?thesis by simp
    qed
  qed
qed

lemma length_clean_summary: "length (clean_summary d) \<le> 203"
  by (simp add: clean_summary_def Let_def asc_def)

lemma take_clean_summary: "take 200 (clean_summary d) = take 200 (strip_tags d)"
  by (simp add: clean_summary_def Let_def)

text \<open>
  What tag stripping does: text without \<open><\<close> is copied; a \<open><\<close> followed by one character
  other than \<open><\<close>, then by characters other than \<open><\<close> and \<open>>\<close>, then by \<open>>\<close>, is dropped
  with all of these; any other \<open><\<close> is copied.
\<close>

lemma strip_tags_plain: "of_char CHR ''<'' \<notin> set a \<Longrightarrow> strip_tags (a @ s) = a @ strip_tags s"
  by (induction a) auto

lemma tag_end_found:
  "of_char CHR ''<'' \<notin> set b \<Longrightarrow> of_char CHR ''>'' \<notin> set b \<Longrightarrow>
     tag_end (b @ of_char CHR ''>'' # rest) = Some rest"
  by (induction b) auto

lemma strip_tags_tag:
  "c \<noteq> of_char CHR ''<'' \<Longrightarrow> of_char CHR ''<'' \<notin> set b \<Longrightarrow> of_char CHR ''>'' \<notin> set b \<Longrightarrow>
     strip_tags (of_char CHR ''<'' # c # b @ of_char CHR ''>'' # rest) = strip_tags rest"
  by (simp add: tag_end_found del: of_char_Char)

lemma tag_end_SomeD:
  "tag_end s = Some rest \<Longrightarrow>
     \<exists>b. s = b @ of_char CHR ''>'' # rest \<and> of_char CHR ''<'' \<notin> set b \<and> of_char CHR ''>'' \<notin> set b"
proof (induction s)
  case Nil
  then show ?case by simp
next
  case (Cons d s)
  show ?case
  proof (cases "d = of_char CHR ''>''")
    case True
    with Cons.prems have "s = rest" by simp
    with True show ?thesis by (intro exI [of _ "[]"]) simp
  next
    case False
    with Cons.prems have d: "d \<noteq> of_char CHR ''<''" and "tag_end s = Some rest"
      by (auto split: if_splits)
    from Cons.IH [OF this(2)] obtain b where
      "s = b @ of_char CHR ''>'' # rest" "of_char CHR ''<'' \<notin> set b" "of_char CHR ''>'' \<notin> set b"
      by blast
    with False d show ?thesis by (intro exI [of _ "d # b"]) simp
  qed
qed

lemma strip_tags_no_tag:
  assumes "\<forall>c b rest. r = c # b @ of_char CHR ''>'' # rest \<longrightarrow>
             c = of_char CHR ''<'' \<or> of_char CHR ''<'' \<in> set b"
  shows "strip_tags (of_char CHR ''<'' # r) = of_char CHR ''<'' # strip_tags r"
proof -
  have "match_tag r = None"
  proof (cases "match_tag r")
    case None
    then show ?thesis .
  next
    case (Some rest)
    then obtain c s where r: "r = c # s" and c: "c \<noteq> of_char CHR ''<''"
      and t: "tag_end s = Some rest"
      by (cases r) (auto split: if_splits)
    from tag_end_SomeD [OF t] obtain b where
      "s = b @ of_char CHR ''>'' # rest" "of_char CHR ''<'' \<notin> set b"
      by blast
    with r c assms show ?thesis by blast
  qed
  then show ?thesis by simp
qed

subsection \<open>Qualification\<close>




subsection \<open>Emitted Leads\<close>

text \<open>
  Claim C7. Every Lead returned by \<open>fetch_leads\<close> has a score above 0 and at least one
  tag, and an item whose analysis gives score 0 gets no Lead.
\<close>

theorem emitted_leads_score_positive:
  "(\<forall>l\<in>set (fetch_leads lower age days feeds). 0 < desperation_score l \<and> tags l \<noteq> [])
   \<and> (\<forall>item.
        snd (analyze_content lower (item_title item) (description item)) = 0 \<longrightarrow>
        lead_of lower item = None)"
proof -
  have "0 < desperation_score l \<and> tags l \<noteq> []"
    if "l \<in> set (fetch_leads lower age days feeds)" for l
  proof -
    from that obtain item where "lead_of lower item = Some l"
      by (auto simp: set_fetch_leads)
    then show ?thesis
      using lead_of_Some [of lower item l]
        analyze_content_score_pos [of lower "item_title item" "description item"]
      by auto
  qed
  moreover have "lead_of lower item = None"
    if "snd (analyze_content lower (item_title item) (description item)) = 0" for item
    using that analyze_content_score_pos [of lower "item_title item" "description item"]
    by (auto simp: lead_of_None)
  ultimately show ?thesis by blast
qed

text \<open>
  Two items, the first with a technology keyword only, the second with the Pain keyword
  U+62A5 U+9519: one Lead comes out, and it has a positive score and a tag.
\<close>

theorem emitted_leads_score_positive_witness:
  "length (fetch_leads ascii_lower Map.empty 1
      [(asc ''global'',
        Some [full_item (asc ''Rust'') [] [] [], full_item [0x62A5, 0x9519] [] [] []])]) = 1
   \<and> list_all (\<lambda>l. 0 < desperation_score l \<and> tags l \<noteq> [])
      (fetch_leads ascii_lower Map.empty 1
        [(asc ''global'',
          Some [full_item (asc ''Rust'') [] [] [], full_item [0x62A5, 0x9519] [] [] []])])"
proof
  show "length (fetch_leads ascii_lower Map.empty 1
      [(asc ''global'',
        Some [full_item (asc ''Rust'') [] [] [], full_item [0x62A5, 0x9519] [] [] []])]) = 1"
    by (simp add: fetch_leads_def read_item_def full_item_def too_old_def py_sort_reverse_def
          lead_of_def analyze_content_def eval_simps)
  show "list_all (\<lambda>l. 0 < desperation_score l \<and> tags l \<noteq> [])
      (fetch_leads ascii_lower Map.empty 1
        [(asc ''global'',
          Some [full_item (asc ''Rust'') [] [] [], full_item [0x62A5, 0x9519] [] [] []])])"
    using emitted_leads_score_positive [of ascii_lower Map.empty 1
        "[(asc ''global'',
          Some [full_item (asc ''Rust'') [] [] [], full_item [0x62A5, 0x9519] [] [] []])]"]
    unfolding list_all_iff by (rule conjunct1)
qed

subsection \<open>Ranking\<close>

text \<open>
  Claim C4. The Leads returned by \<open>fetch_leads\<close> are in descending order of score, and
  the returned Leads of any one score \<open>k\<close> are the Leads of the items scoring \<open>k\<close> among
  those that reach the analysis, in the order of those items in the input.
\<close>

theorem fetch_leads_sorted_stable:
  "sorted_wrt (\<lambda>a b. desperation_score a \<ge> desperation_score b)
     (fetch_leads lower age days feeds)
   \<and> filter (\<lambda>l. desperation_score l = k) (fetch_leads lower age days feeds) =
       List.map_filter (lead_of lower)
         (filter (\<lambda>item. snd (analyze_content lower (item_title item) (description item)) = k)
            (analysed_items age days feeds))"
  by (simp add: fetch_leads_eq py_sort_reverse_sorted py_sort_reverse_stable
        filter_map_filter_lead_of)

text \<open>
  Three items scoring 10, 120 and 10, the second and third in another feed than the
  first: the two Leads of score 10 come out in input order, after the Lead of score 120.
\<close>

theorem fetch_leads_sorted_stable_witness:
  "filter (\<lambda>l. desperation_score l = 10)
     (fetch_leads ascii_lower Map.empty 1
        [(asc ''global'', Some [full_item [0x6C42, 0x52A9] (asc ''a'') [] []]),
         (asc ''jobs'', Some [full_item [0x6025] (asc ''b'') [] [],
                               full_item [0x62A5, 0x9519] (asc ''c'') [] []])]) =
   List.map_filter (lead_of ascii_lower)
     [\<lparr>feed_category = asc ''global'', item_title = [0x6C42, 0x52A9], link = asc ''a'',
       description = [], pub_date_str = []\<rparr>,
      \<lparr>feed_category = asc ''jobs'', item_title = [0x62A5, 0x9519], link = asc ''c'',
       description = [], pub_date_str = []\<rparr>]
   \<and> map url (fetch_leads ascii_lower Map.empty 1
        [(asc ''global'', Some [full_item [0x6C42, 0x52A9] (asc ''a'') [] []]),
         (asc ''jobs'', Some [full_item [0x6025] (asc ''b'') [] [],
                               full_item [0x62A5, 0x9519] (asc ''c'') [] []])])
       = [asc ''b'', asc ''a'', asc ''c'']"
proof
  have items: "analysed_items Map.empty 1
        [(asc ''global'', Some [full_item [0x6C42, 0x52A9] (asc ''a'') [] []]),
         (asc ''jobs'', Some [full_item [0x6025] (asc ''b'') [] [],
                               full_item [0x62A5, 0x9519] (asc ''c'') [] []])]
     = [\<lparr>feed_category = asc ''global'', item_title = [0x6C42, 0x52A9], link = asc ''a'',
         description = [], pub_date_str = []\<rparr>,
        \<lparr>feed_category = asc ''jobs'', item_title = [0x6025], link = asc ''b'',
         description = [], pub_date_str = []\<rparr>,
        \<lparr>feed_category = asc ''jobs'', item_title = [0x62A5, 0x9519], link = asc ''c'',
         description = [], pub_date_str = []\<rparr>]"
    by (simp add: analysed_items_def feed_items_def read_item_def full_item_def too_old_def)
  have flt: "filter
       (\<lambda>item. snd (analyze_content ascii_lower (item_title item) (description item)) = 10)
       [\<lparr>feed_category = asc ''global'', item_title = [0x6C42, 0x52A9], link = asc ''a'',
         description = [], pub_date_str = []\<rparr>,
        \<lparr>feed_category = asc ''jobs'', item_title = [0x6025], link = asc ''b'',
         description = [], pub_date_str = []\<rparr>,
        \<lparr>feed_category = asc ''jobs'', item_title = [0x62A5, 0x9519], link = asc ''c'',
         description = [], pub_date_str = []\<rparr>]
     = [\<lparr>feed_category = asc ''global'', item_title = [0x6C42, 0x52A9], link = asc ''a'',
         description = [], pub_date_str = []\<rparr>,
        \<lparr>feed_category = asc ''jobs'', item_title = [0x62A5, 0x9519], link = asc ''c'',
         description = [], pub_date_str = []\<rparr>]"
    by (simp add: analyze_content_def eval_simps)
  show "filter (\<lambda>l. desperation_score l = 10)
     (fetch_leads ascii_lower Map.empty 1
        [(asc ''global'', Some [full_item [0x6C42, 0x52A9] (asc ''a'') [] []]),
         (asc ''jobs'', Some [full_item [0x6025] (asc ''b'') [] [],
                               full_item [0x62A5, 0x9519] (asc ''c'') [] []])]) =
   List.map_filter (lead_of ascii_lower)
     [\<lparr>feed_category = asc ''global'', item_title = [0x6C42, 0x52A9], link = asc ''a'',
       description = [], pub_date_str = []\<rparr>,
      \<lparr>feed_category = asc ''jobs'', item_title = [0x62A5, 0x9519], link = asc ''c'',
       description = [], pub_date_str = []\<rparr>]"
    by (simp only: items flt
          fetch_leads_sorted_stable [of ascii_lower Map.empty 1
            "[(asc ''global'', Some [full_item [0x6C42, 0x52A9] (asc ''a'') [] []]),
              (asc ''jobs'', Some [full_item [0x6025] (asc ''b'') [] [],
                                    full_item [0x62A5, 0x9519] (asc ''c'') [] []])]" 10,
            THEN conjunct2])
  show "map url (fetch_leads ascii_lower Map.empty 1
        [(asc ''global'', Some [full_item [0x6C42, 0x52A9] (asc ''a'') [] []]),
         (asc ''jobs'', Some [full_item [0x6025] (asc ''b'') [] [],
                               full_item [0x62A5, 0x9519] (asc ''c'') [] []])])
       = [asc ''b'', asc ''a'', asc ''c'']"
    by (simp add: fetch_leads_def read_item_def full_item_def too_old_def py_sort_reverse_def
          lead_of_def analyze_content_def eval_simps)
qed

subsection \<open>The scenario of the specification\<close>

text \<open>
  Claim C3, as stated: the item with title U+6025 U+62DB U+517C U+804C U+722C U+866B U+5DE5
  U+7A0B U+5E08 and body U+9884 U+7B97 \<open>5000\<close> U+FF0C \<open>Python\<close> would get the tags
  \<open>Money\<close>, \<open>Urgent\<close> and \<open>Tech:Python,\<close> U+722C U+866B. The code's tags are not these
  strings.
\<close>

theorem scenario_tags_counterexample:
  "map tags (fetch_leads ascii_lower Map.empty 1
     [(asc ''jobs'',
       Some [full_item
               [0x6025, 0x62DB, 0x517C, 0x804C, 0x722C, 0x866B, 0x5DE5, 0x7A0B, 0x5E08]
               (asc ''https://x.example/1'')
               ([0x9884, 0x7B97] @ asc ''5000'' @ [0xFF0C] @ asc ''Python'')
               []])])
   \<noteq> [[asc ''Money'', asc ''Urgent'', asc ''Tech:Python,'' @ [0x722C, 0x866B]]]"
  by (simp add: fetch_leads_def read_item_def full_item_def too_old_def py_sort_reverse_def
        lead_of_def analyze_content_def eval_simps)

text \<open>
  Claim C3, amended. For that item, whose date is the empty string, exactly one Lead is
  returned, whatever the clock and the number of days, provided the empty string does not
  parse as a date. It has score 200 and the tags U+1F4B0 \<open>Money\<close>, U+1F525 \<open>Urgent\<close> and
  U+1F6E0 U+FE0F \<open>Python,\<close> U+722C U+866B, in this order (Python comes first in the last
  tag although U+722C U+866B comes first in the text). For every title and body, the
  tags are a subsequence of the Money tag, the Pain tag, the Urgent tag and the
  technology tag, in this order.
\<close>

theorem scenario_score_and_tags:
  "map (\<lambda>l. (tags l, desperation_score l))
     (fetch_leads ascii_lower (age([] := None)) days
       [(asc ''jobs'',
         Some [full_item
                 [0x6025, 0x62DB, 0x517C, 0x804C, 0x722C, 0x866B, 0x5DE5, 0x7A0B, 0x5E08]
                 (asc ''https://x.example/1'')
                 ([0x9884, 0x7B97] @ asc ''5000'' @ [0xFF0C] @ asc ''Python'')
                 []])])
   = [([0x1F4B0 # asc ''Money'', 0x1F525 # asc ''Urgent'',
        [0x1F6E0, 0xFE0F] @ asc ''Python,'' @ [0x722C, 0x866B]], 200)]
   \<and> subseq (fst (analyze_content lower ttl content))
       [tag_money, tag_pain, tag_urgent,
        tag_tech (filter (\<lambda>t. py_in (lower t) (lower (ttl @ content))) TECH_KEYWORDS)]"
proof
  show "map (\<lambda>l. (tags l, desperation_score l))
     (fetch_leads ascii_lower (age([] := None)) days
       [(asc ''jobs'',
         Some [full_item
                 [0x6025, 0x62DB, 0x517C, 0x804C, 0x722C, 0x866B, 0x5DE5, 0x7A0B, 0x5E08]
                 (asc ''https://x.example/1'')
                 ([0x9884, 0x7B97] @ asc ''5000'' @ [0xFF0C] @ asc ''Python'')
                 []])])
   = [([0x1F4B0 # asc ''Money'', 0x1F525 # asc ''Urgent'',
        [0x1F6E0, 0xFE0F] @ asc ''Python,'' @ [0x722C, 0x866B]], 200)]"
    by (simp add: fetch_leads_def read_item_def full_item_def too_old_def py_sort_reverse_def
          lead_of_def analyze_content_def eval_simps)
  show "subseq (fst (analyze_content lower ttl content))
       [tag_money, tag_pain, tag_urgent,
        tag_tech (filter (\<lambda>t. py_in (lower t) (lower (ttl @ content))) TECH_KEYWORDS)]"
    by (rule tags_fixed_order)
qed

text \<open>
  With the title \<open>Python\<close> U+6C42 U+52A9 and the body U+6025, the Pain keyword comes before
  the Money and Urgent keyword in the text, and the technology keyword before both; the
  tags still come out as Money, Pain, Urgent, technology.
\<close>

theorem scenario_score_and_tags_witness:
  "fst (analyze_content ascii_lower (asc ''Python'' @ [0x6C42, 0x52A9]) [0x6025])
     = [tag_money, tag_pain, tag_urgent, tag_tech [asc ''Python'']]
   \<and> subseq (fst (analyze_content ascii_lower (asc ''Python'' @ [0x6C42, 0x52A9]) [0x6025]))
       [tag_money, tag_pain, tag_urgent, tag_tech [asc ''Python'']]"
proof
  show "fst (analyze_content ascii_lower (asc ''Python'' @ [0x6C42, 0x52A9]) [0x6025])
     = [tag_money, tag_pain, tag_urgent, tag_tech [asc ''Python'']]"
    by (simp add: analyze_content_def eval_simps)
  have "filter (\<lambda>t. py_in (ascii_lower t) (ascii_lower ((asc ''Python'' @ [0x6C42, 0x52A9]) @ [0x6025])))
          TECH_KEYWORDS = [asc ''Python'']"
    by (simp add: eval_simps)
  then show "subseq (fst (analyze_content ascii_lower (asc ''Python'' @ [0x6C42, 0x52A9]) [0x6025]))
       [tag_money, tag_pain, tag_urgent, tag_tech [asc ''Python'']]"
    using scenario_score_and_tags
      [where lower = ascii_lower and ttl = "asc ''Python'' @ [0x6C42, 0x52A9]"
         and content = "[0x6025]" and age = Map.empty and days = 1]
    by simp
qed

subsection \<open>The summary\<close>

text \<open>
  Claim C9, as stated: the summary of a Lead would have at most 200 characters. For a
  body of 201 letters \<open>a\<close> it has 203.
\<close>

theorem summary_length_counterexample:
  "map (length \<circ> summary)
     (fetch_leads ascii_lower Map.empty 1
        [(asc ''jobs'', Some [full_item [0x6025] [] (replicate 201 (of_char CHR ''a'')) []])])
   = [203]"
proof -
  have "strip_tags (replicate 201 (of_char CHR ''a'')) = replicate 201 (of_char CHR ''a'')"
    by (rule strip_tags_no_lt) simp
  then have "length (clean_summary (replicate 201 (of_char CHR ''a''))) = 203"
    by (simp add: clean_summary_def asc_def)
  moreover have
    "fst (analyze_content ascii_lower [0x6025] (replicate 201 (of_char CHR ''a''))) \<noteq> []"
    by (simp add: analyze_content_empty_iff any_keyword_def MONEY_KEYWORDS_def ascii_lower_def)
  ultimately show ?thesis
    by (auto simp: fetch_leads_def read_item_def full_item_def too_old_def py_sort_reverse_def
          lead_of_def split: prod.splits)
qed

text \<open>
  Claim C9, amended. Every returned Lead is the Lead of an item that reached the
  analysis, and its summary is that item's body with the tags stripped when that has at
  most 200 characters, and otherwise its first 200 characters followed by three dots. So
  it has at most 203 characters and agrees with the stripped body on the first 200.
  Stripping only deletes characters. It copies a stretch of text without \<open><\<close>; it drops
  a \<open><\<close> together with the character after it, when that is not \<open><\<close>, the characters
  other than \<open><\<close> and \<open>>\<close> that follow, and the \<open>>\<close> after them; and it copies a \<open><\<close>
  that is not followed in this way by a \<open>>\<close> before the next \<open><\<close>.
\<close>

theorem summary_stripped_and_cut:
  "l \<in> set (fetch_leads lower age days feeds) \<Longrightarrow>
     (\<exists>item\<in>set (analysed_items age days feeds).
        lead_of lower item = Some l
        \<and> summary l =
            (if 200 < length (strip_tags (description item))
             then take 200 (strip_tags (description item)) @ asc ''...''
             else strip_tags (description item))
        \<and> take 200 (summary l) = take 200 (strip_tags (description item))
        \<and> subseq (strip_tags (description item)) (description item))
   \<and> length (summary l) \<le> 203
   \<and> strip_tags [] = []
   \<and> (of_char CHR ''<'' \<notin> set a \<longrightarrow> strip_tags (a @ s) = a @ strip_tags s)
   \<and> (c \<noteq> of_char CHR ''<'' \<and> of_char CHR ''<'' \<notin> set b \<and> of_char CHR ''>'' \<notin> set b \<longrightarrow>
        strip_tags (of_char CHR ''<'' # c # b @ of_char CHR ''>'' # rest) = strip_tags rest)
   \<and> ((\<forall>c b rest. r = c # b @ of_char CHR ''>'' # rest \<longrightarrow>
          c = of_char CHR ''<'' \<or> of_char CHR ''<'' \<in> set b) \<longrightarrow>
        strip_tags (of_char CHR ''<'' # r) = of_char CHR ''<'' # strip_tags r)"
proof -
  assume "l \<in> set (fetch_leads lower age days feeds)"
  then obtain item where i: "item \<in> set (analysed_items age days feeds)"
    and l: "lead_of lower item = Some l"
    by (auto simp: set_fetch_leads)
  have s: "summary l = clean_summary (description item)"
    using lead_of_Some [OF l] by simp
  have 1: "\<exists>item\<in>set (analysed_items age days feeds).
        lead_of lower item = Some l
        \<and> summary l =
            (if 200 < length (strip_tags (description item))
             then take 200 (strip_tags (description item)) @ asc ''...''
             else strip_tags (description item))
        \<and> take 200 (summary l) = take 200 (strip_tags (description item))
        \<and> subseq (strip_tags (description item)) (description item)"
    using i l s take_clean_summary [of "description item"]
      subseq_strip_tags [of "description item"]
    by (intro bexI [of _ item]) (simp_all add: clean_summary_def Let_def)
  have 2: "length (summary l) \<le> 203"
    unfolding s by (rule length_clean_summary)
  have 3: "strip_tags [] = []" by simp
  have 4: "of_char CHR ''<'' \<notin> set a \<longrightarrow> strip_tags (a @ s) = a @ strip_tags s"
    using strip_tags_plain by blast
  have 5: "c \<noteq> of_char CHR ''<'' \<and> of_char CHR ''<'' \<notin> set b \<and> of_char CHR ''>'' \<notin> set b \<longrightarrow>
        strip_tags (of_char CHR ''<'' # c # b @ of_char CHR ''>'' # rest) = strip_tags rest"
    using strip_tags_tag by blast
  have 6: "(\<forall>c b rest. r = c # b @ of_char CHR ''>'' # rest \<longrightarrow>
          c = of_char CHR ''<'' \<or> of_char CHR ''<'' \<in> set b) \<longrightarrow>
        strip_tags (of_char CHR ''<'' # r) = of_char CHR ''<'' # strip_tags r"
    using strip_tags_no_tag by blast
  show ?thesis
    using 1 2 3 4 5 6 by (intro conjI)
qed

text \<open>
  An item whose body is \<open><b>hi\<close>: the tag \<open><b>\<close> is dropped, \<open>hi\<close> is copied, and the
  summary of the item's Lead is \<open>hi\<close>.
\<close>

theorem summary_stripped_and_cut_witness:
  "fetch_leads ascii_lower Map.empty 1 [(asc ''jobs'', Some [full_item [0x6025] [] (asc ''<b>hi'') []])]
   = [\<lparr>source = asc ''V2EX-jobs'', title = [0x6025], url = [], summary = asc ''hi'',
       posted_date = [], tags = [tag_money, tag_urgent], desperation_score = 120\<rparr>]
   \<and> strip_tags (asc ''<b>hi'') = asc ''hi''
   \<and> length (asc ''hi'') \<le> 203"
proof -
  let ?l = "\<lparr>source = asc ''V2EX-jobs'', title = [0x6025], url = [], summary = asc ''hi'',
       posted_date = [], tags = [tag_money, tag_urgent], desperation_score = 120\<rparr>"
  have f: "fetch_leads ascii_lower Map.empty 1
      [(asc ''jobs'', Some [full_item [0x6025] [] (asc ''<b>hi'') []])] = [?l]"
    by (simp add: fetch_leads_def read_item_def full_item_def too_old_def py_sort_reverse_def
          lead_of_def analyze_content_def clean_summary_def eval_simps)
  have m: "?l \<in> set (fetch_leads ascii_lower Map.empty 1
      [(asc ''jobs'', Some [full_item [0x6025] [] (asc ''<b>hi'') []])])"
    unfolding f by simp
  note t = summary_stripped_and_cut [OF m, where a = "asc ''hi''" and s = "[]"
      and c = "of_char CHR ''b''" and b = "[]" and rest = "asc ''hi''"]
  have tag: "strip_tags (of_char CHR ''<'' # of_char CHR ''b'' # [] @ of_char CHR ''>'' # asc ''hi'')
      = strip_tags (asc ''hi'')"
    using t by simp
  have plain: "strip_tags (asc ''hi'' @ []) = asc ''hi'' @ strip_tags []"
    using t by (simp add: asc_def)
  have "asc ''<b>hi'' = of_char CHR ''<'' # of_char CHR ''b'' # [] @ of_char CHR ''>'' # asc ''hi''"
    by (simp add: asc_def)
  then have s: "strip_tags (asc ''<b>hi'') = asc ''hi''"
    using tag plain by simp
  have "length (summary ?l) \<le> 203"
    using t by blast
  then show ?thesis
    using f s by simp
qed

section \<open>Properties of the validator\<close>

subsection \<open>Auxiliary facts\<close>




































text \<open>
  The function returns when the checker returns for the URLs that are not skipped and the
  standard output encodes ASCII, the two marks and the characters of the text.
\<close>

lemma py_str_ascii: "c \<in> set (py_str n) \<Longrightarrow> c < 128"
proof (induction n rule: py_str.induct)
  case (1 n)
  show ?case
  proof (cases "n < 10")
    case True
    with "1.prems" show ?thesis
      by (simp add: py_str.simps [of n])
  next
    case False
    with "1.prems" have "c \<in> set (py_str (n div 10)) \<or> c = 48 + n mod 10"
      by (auto simp: py_str.simps [of n])
    then show ?thesis
    proof
      assume "c \<in> set (py_str (n div 10))"
      with "1.IH" False show ?thesis by simp
    next
      assume "c = 48 + n mod 10"
      moreover have "n mod 10 < 10" by simp
      ultimately show ?thesis by linarith
    qed
  qed
qed


text \<open>The first message can be printed to a standard output in UTF-8.\<close>

lemma print_validating_message_utf8:
  "list_all utf8_encodable (validating_message n)"
proof -
  have "c \<in> set (validating_message n) \<Longrightarrow> c < 128" for c
    by (auto simp: validating_message_def asc_def dest: py_str_ascii)
  then show ?thesis
    by (fastforce simp: list_all_iff utf8_encodable_def)
qed


subsection \<open>The checker\<close>

text \<open>
  When the standard output can encode the message of the handler, \<open>verify_link\<close> returns
  a boolean: \<open>True\<close> exactly when the HEAD request answers 200, or answers a status other
  than 200 and 404 and the GET request then answers 200. A failed request and a 404 give
  \<open>False\<close>.
\<close>

lemma verify_link_when_printed:
  assumes "\<And>e. list_all encodable (error_message u e)"
  shows "(\<exists>is_valid. verify_link encodable http_head http_get u = Inr is_valid)
   \<and> (verify_link encodable http_head http_get u = Inr True) =
       (http_head u = Inr 200
        \<or> (\<exists>status. http_head u = Inr status \<and> status \<noteq> 200 \<and> status \<noteq> 404
              \<and> http_get u = Inr 200))
   \<and> (http_head u = Inl e \<longrightarrow> verify_link encodable http_head http_get u = Inr False)
   \<and> (http_head u = Inr 404 \<longrightarrow> verify_link encodable http_head http_get u = Inr False)
   \<and> (http_head u = Inr status \<and> status \<noteq> 200 \<and> http_get u = Inl e \<longrightarrow>
        verify_link encodable http_head http_get u = Inr False)
   \<and> (http_head u = Inr status \<and> status \<noteq> 200 \<and> http_get u = Inr 404 \<longrightarrow>
        verify_link encodable http_head http_get u = Inr False)"
  using assms
  by (auto simp: verify_link_def verify_link_try_def py_print_def split: sum.splits)


subsection \<open>Texts without links\<close>

text \<open>
  Claim C8. A text in which no link is found is returned as it is, without any call of
  the checker and without any message, whether or not a checker is available, whatever
  the checker and the standard output; validating the returned text again returns the
  same.
\<close>

theorem validate_identity_without_links:
  "findall_links text = [] \<Longrightarrow>
     validate_grok_report encodable verifier text = (Inr text, [])
   \<and> (case fst (validate_grok_report encodable verifier text) of
         Inl raised \<Rightarrow> False
       | Inr once \<Rightarrow>
           fst (validate_grok_report encodable verifier once)
             = fst (validate_grok_report encodable verifier text))"
  by (cases verifier) (simp_all add: validate_grok_report_def)

text \<open>A text with a bare URL, an \<open>ftp\<close> link and an empty link text has no link to extract.\<close>

theorem validate_identity_without_links_witness:
  "findall_links (asc ''see https://a.example, [f](ftp://b) and [](https://c)'') = []
   \<and> validate_grok_report ascii_only (Some no_link_live)
       (asc ''see https://a.example, [f](ftp://b) and [](https://c)'')
     = (Inr (asc ''see https://a.example, [f](ftp://b) and [](https://c)''), [])"
proof -
  have h: "findall_links (asc ''see https://a.example, [f](ftp://b) and [](https://c)'') = []"
    by (simp add: asc_def match_link_def match_scheme_def)
  show ?thesis
    using h validate_identity_without_links [OF h, of ascii_only "Some no_link_live"]
    by simp
qed

subsection \<open>Skipped links\<close>







subsection \<open>Links found not live\<close>

text \<open>
  Claim C2. The claim says that each occurrence of a link found not live gets the
  warning once, also when the same link occurs twice. The code extracts the link once
  per occurrence and, each time, rewrites every occurrence in the working text, where the
  rewritten form still begins with the link: for a link that occurs twice, each
  occurrence ends up followed by the warning twice. (The warning of the code is the
  string defined above, not the English text of the claim.)
\<close>

theorem duplicate_link_marked_twice:
  "findall_links (asc ''[Bad](https://dead.example) [Bad](https://dead.example)'')
     = [(asc ''Bad'', asc ''https://dead.example''), (asc ''Bad'', asc ''https://dead.example'')]
   \<and> validate_grok_report utf8_encodable (Some no_link_live)
          (asc ''[Bad](https://dead.example) [Bad](https://dead.example)'')
     = (Inr (asc ''[Bad](https://dead.example)'' @ warning @ warning
              @ asc '' [Bad](https://dead.example)'' @ warning @ warning),
        [asc ''https://dead.example'', asc ''https://dead.example''])
   \<and> warning \<noteq> asc '' **('' @ [0x26A0, 0xFE0F] @ asc '' link verification failed/404)**''"
  by (simp add: validate_grok_report_def skip_url_def skip_domains_def no_link_live_def
        old_link_def new_link_def match_link_def match_scheme_def py_print_def invalid_message_def
        print_validating_message_utf8 utf8_encodable_def asc_def Let_def warning_def)

end
